theory Spec2Isabelle
  imports Main "HOL-Library.Word" "HOL-Library.Sublist" "HOL-Library.Signed_Division"
begin

section \<open>Go runtime and standard library, as far as the printers use them\<close>

text \<open>
  Go strings are byte sequences: \<^typ>\<open>string\<close> (a \<^typ>\<open>char list\<close>). Go's \<open>int\<close> is
  modelled at its 64-bit width: \<open>+\<close>, \<open>-\<close> and \<open>*\<close> wrap around, comparisons and
  division read the word as two's complement. A run-time panic is a value of \<open>panic\<close>.
\<close>

type_synonym goint = "64 word"
type_synonym addr = nat

datatype panic = IndexOutOfRange | DivideByZero | NegativeRepeatCount | RepeatOverflow

definition NL :: char where
  "NL = CHR 0x0A"

definition CR :: char where
  "CR = CHR 0x0D"

text \<open>\<open>strings.Trim(s, cutset)\<close>: for an ASCII cutset, the bytes of the cutset are
  removed from the right end and then from the left end.\<close>

definition Trim :: "string \<Rightarrow> string \<Rightarrow> string" where
  "Trim s cutset =
     dropWhile (\<lambda>c. c \<in> set cutset) (rev (dropWhile (\<lambda>c. c \<in> set cutset) (rev s)))"

text \<open>\<open>strings.Split(s, sep)\<close> for a non-empty separator: the pieces between the
  leftmost, non-overlapping occurrences of \<open>sep\<close>. \<open>Split_aux sep k cur s\<close> scans \<open>s\<close>;
  \<open>cur\<close> is the piece collected so far and \<open>k\<close> the number of bytes of a separator just
  found that are still to be skipped. (Go explodes the string into its UTF-8 sequences
  when the separator is empty; the program never passes the empty separator, and the
  model does not cover it.)\<close>

fun Split_aux :: "string \<Rightarrow> nat \<Rightarrow> string \<Rightarrow> string \<Rightarrow> string list" where
  "Split_aux sep k cur [] = [cur]"
| "Split_aux sep (Suc k) cur (x # xs) = Split_aux sep k cur xs"
| "Split_aux sep 0 cur (x # xs) =
     (if prefix sep (x # xs) then cur # Split_aux sep (length sep - 1) [] xs
      else Split_aux sep 0 (cur @ [x]) xs)"

definition Split :: "string \<Rightarrow> string \<Rightarrow> string list" where
  "Split s sep = Split_aux sep 0 [] s"

section \<open>syncBuffer\<close>

text \<open>The mutex of a \<open>syncBuffer\<close> serialises its callers; the model is sequential, so
  the buffer is its bytes. \<open>Write\<close> appends and reports the number of bytes written and
  no error.\<close>

record syncBuffer =
  buf :: string

definition Write :: "syncBuffer \<Rightarrow> string \<Rightarrow> syncBuffer \<times> nat \<times> unit option" where
  "Write sb p = (sb\<lparr>buf := buf sb @ p\<rparr>, length p, None)"

definition String :: "syncBuffer \<Rightarrow> string" where
  "String sb = buf sb"

section \<open>MultiPrinter\<close>

text \<open>Of the fields of a \<open>MultiPrinter\<close> the model keeps \<open>IsActive\<close> and \<open>buffers\<close>, the
  ones that \<open>NewWriter\<close> and \<open>getString\<close> touch. \<open>p.buffers\<close> is a slice of pointers: a
  list of addresses into a store of \<open>syncBuffer\<close>s. \<open>nextAddr\<close> is the next address the
  allocator hands out.\<close>

record MultiPrinter =
  mpIsActive :: bool
  buffers :: "addr list"

definition DefaultMultiPrinter :: MultiPrinter where
  "DefaultMultiPrinter = \<lparr>mpIsActive = False, buffers = []\<rparr>"

record mworld =
  store :: "addr \<Rightarrow> syncBuffer"
  nextAddr :: addr
  mp :: MultiPrinter

definition emptyBuffer :: syncBuffer where
  "emptyBuffer = \<lparr>buf = []\<rparr>"

text \<open>\<open>NewWriter\<close>: allocate a buffer, append its pointer to \<open>p.buffers\<close>, return it.\<close>

definition NewWriter :: "mworld \<Rightarrow> mworld \<times> addr" where
  "NewWriter w =
     (let b = nextAddr w in
      (w\<lparr>store := (store w)(b := emptyBuffer),
         nextAddr := Suc b,
         mp := (mp w)\<lparr>buffers := buffers (mp w) @ [b]\<rparr>\<rparr>, b))"

text \<open>A write through a handle \<open>b\<close> that \<open>NewWriter\<close> returned.\<close>

definition WriteTo :: "addr \<Rightarrow> string \<Rightarrow> mworld \<Rightarrow> mworld" where
  "WriteTo b p w = w\<lparr>store := (store w)(b := fst (Write (store w b) p))\<rparr>"

text \<open>The inner loop of \<open>MultiPrinter.getString\<close>:
  \<open>for i := len(parts) - 1; i >= 0 && s == ""; i-- { s = parts[i] }\<close>,
  with \<open>k = i + 1\<close>.\<close>

fun walk :: "string list \<Rightarrow> nat \<Rightarrow> string \<Rightarrow> string" where
  "walk parts 0 s = s"
| "walk parts (Suc i) s = (if s = [] then walk parts i (parts ! i) else s)"

text \<open>The body of the loop over the buffers, from the snapshot \<open>b.String()\<close> to the bytes
  written to the output: \<open>parts[len(parts)-1]\<close> panics on an empty slice.\<close>

definition MultiPrinter_getString_body :: "string \<Rightarrow> panic + string" where
  "MultiPrinter_getString_body s0 =
     (let s = Trim s0 [NL];
          parts = Split s [CR]
      in if parts = [] then Inl IndexOutOfRange
         else let s = parts ! (length parts - 1);
                  s = walk parts (length parts) s;
                  s = Trim s [NL, CR]
              in Inr (s @ [NL]))"

fun MultiPrinter_getString_loop :: "(addr \<Rightarrow> syncBuffer) \<Rightarrow> addr list \<Rightarrow> string \<Rightarrow> panic + string" where
  "MultiPrinter_getString_loop st [] buffer = Inr buffer"
| "MultiPrinter_getString_loop st (b # bs) buffer =
     (case MultiPrinter_getString_body (String (st b)) of
        Inl e \<Rightarrow> Inl e
      | Inr ln \<Rightarrow> MultiPrinter_getString_loop st bs (buffer @ ln))"

definition MultiPrinter_getString :: "mworld \<Rightarrow> panic + string" where
  "MultiPrinter_getString w = MultiPrinter_getString_loop (store w) (buffers (mp w)) []"

section \<open>Operations on a MultiPrinter, in sequence\<close>

text \<open>A caller registers buffers and writes through the handles it was given, in any
  order. \<open>run\<close> performs the operations and collects the handles \<open>NewWriter\<close> returned;
  a write through a handle that was never handed out is no execution (\<open>None\<close>).\<close>

datatype mop = OpNewWriter | OpWrite addr string

fun run :: "mop list \<Rightarrow> mworld \<Rightarrow> (mworld \<times> addr list) option" where
  "run [] w = Some (w, [])"
| "run (OpNewWriter # ops) w =
     (case run ops (fst (NewWriter w)) of
        None \<Rightarrow> None
      | Some (w', hs) \<Rightarrow> Some (w', snd (NewWriter w) # hs))"
| "run (OpWrite b p # ops) w =
     (if b < nextAddr w then run ops (WriteTo b p w) else None)"

text \<open>The bytes written through handle \<open>b\<close>, in the order of the writes.\<close>

fun written :: "addr \<Rightarrow> mop list \<Rightarrow> string" where
  "written b [] = []"
| "written b (OpNewWriter # ops) = written b ops"
| "written b (OpWrite b' p # ops) = (if b' = b then p else []) @ written b ops"

text \<open>The last non-empty element of a list of segments, the empty string when there
  is none; and the line a snapshot contributes to the merged output.\<close>

definition last_nonempty :: "string list \<Rightarrow> string" where
  "last_nonempty ps =
     (let fs = filter (\<lambda>x. x \<noteq> []) ps in if fs = [] then [] else last fs)"

definition visibleLine :: "string \<Rightarrow> string" where
  "visibleLine s = Trim (last_nonempty (Split (Trim s [NL]) [CR])) [NL, CR]"

section \<open>ProgressbarPrinter\<close>

subsection \<open>Collaborators\<close>

text \<open>Integer division truncates towards zero, wraps around like the other operations
  and panics on a zero divisor.\<close>

definition godiv :: "goint \<Rightarrow> goint \<Rightarrow> panic + goint" where
  "godiv a b = (if b = 0 then Inl DivideByZero else Inr (word_of_int (sint a sdiv sint b)))"

text \<open>\<open>strings.Repeat(s, count)\<close> panics if \<open>count\<close> is negative or if the length of
  the result overflows. The model panics in these two cases only. The Go runtime also
  refuses to allocate a result that is shorter than \<open>2^63\<close> bytes and longer than its
  allocation limit, which differs between platforms: there the model returns the
  string. So the model panics only where the code does, and a call that returns in
  the code returns in the model.\<close>

definition Repeat :: "string \<Rightarrow> goint \<Rightarrow> panic + string" where
  "Repeat s count =
     (if count <s 0 then Inl NegativeRepeatCount
      else if 2 ^ 63 \<le> int (length s) * sint count then Inl RepeatOverflow
      else Inr (concat (replicate (nat (sint count)) s)))"

text \<open>Styling, formatting, the terminal and the clock are not part of the source file:
  they are parameters of the model. \<open>Log10Trunc x\<close> stands for
  \<open>int(math.Log10(float64(x)))\<close>, \<open>SprintfPadded w x\<close> for \<open>fmt.Sprintf("%0*d", w, x)\<close>,
  \<open>PercentageLabel total current\<close> for the coloured percentage, \<open>Since t\<close> for
  \<open>time.Since(t)\<close>.\<close>

text \<open>A \<open>Style\<close> is a list of colour codes; an \<open>io.Writer\<close> is known by a number.\<close>

type_synonym Style = "nat list"
type_synonym writer = nat

record env =
  GetTerminalWidth :: goint
  NewStyle :: Style
  StyleSprint :: "Style \<Rightarrow> string \<Rightarrow> string"
  Gray :: "string \<Rightarrow> string"
  LightWhite :: "string \<Rightarrow> string"
  SprintfPadded :: "goint \<Rightarrow> goint \<Rightarrow> string"
  SprintInt :: "goint \<Rightarrow> string"
  Log10Trunc :: "goint \<Rightarrow> goint"
  PercentageLabel :: "goint \<Rightarrow> goint \<Rightarrow> string"
  Since :: "nat \<Rightarrow> goint"
  DurationRound :: "goint \<Rightarrow> goint \<Rightarrow> goint"
  DurationString :: "goint \<Rightarrow> string"
  RemoveColorFromString :: "string \<Rightarrow> string"

subsection \<open>The printer\<close>

record ProgressbarPrinter =
  Title :: string
  Total :: goint
  Current :: goint
  BarCharacter :: string
  LastCharacter :: string
  ElapsedTimeRoundingFactor :: goint
  BarFiller :: string
  MaxWidth :: goint
  ShowElapsedTime :: bool
  ShowCount :: bool
  ShowTitle :: bool
  ShowPercentage :: bool
  RemoveWhenDone :: bool
  TitleStyle :: "Style option"
  BarStyle :: "Style option"
  IsActive :: bool
  startedAt :: nat
  rerenderTask :: "addr option"
  Writer :: writer

definition GetElapsedTime :: "env \<Rightarrow> ProgressbarPrinter \<Rightarrow> goint" where
  "GetElapsedTime e p = Since e (startedAt p)"

definition parseElapsedTime :: "env \<Rightarrow> ProgressbarPrinter \<Rightarrow> string" where
  "parseElapsedTime e p =
     DurationString e (DurationRound e (GetElapsedTime e p) (ElapsedTimeRoundingFactor p))"

subsection \<open>getString\<close>

definition lineWidth :: "env \<Rightarrow> ProgressbarPrinter \<Rightarrow> goint" where
  "lineWidth e p =
     (if MaxWidth p \<le>s 0 then GetTerminalWidth e
      else if GetTerminalWidth e <s MaxWidth p then GetTerminalWidth e
      else MaxWidth p)"

definition beforeSegment :: "env \<Rightarrow> Style \<Rightarrow> ProgressbarPrinter \<Rightarrow> string" where
  "beforeSegment e ts p =
     (if ShowTitle p then StyleSprint e ts (Title p) @ '' '' else []) @
     (if ShowCount p
      then (let padding = 1 + Log10Trunc e (Total p)
            in Gray e ''['' @ LightWhite e (SprintfPadded e padding (Current p)) @
               Gray e ''/'' @ LightWhite e (SprintInt e (Total p)) @ Gray e '']'' @ '' '')
      else [])"

definition afterSegment :: "env \<Rightarrow> ProgressbarPrinter \<Rightarrow> string" where
  "afterSegment e p =
     '' '' @
     (if ShowPercentage p then PercentageLabel e (Total p) (Current p) @ '' '' else []) @
     (if ShowElapsedTime p then ''| '' @ parseElapsedTime e p else [])"

definition barMaxLength :: "env \<Rightarrow> string \<Rightarrow> string \<Rightarrow> goint \<Rightarrow> goint" where
  "barMaxLength e bef aft width =
     width - of_nat (length (RemoveColorFromString e bef))
           - of_nat (length (RemoveColorFromString e aft)) - 1"

definition barCurrentLength :: "goint \<Rightarrow> goint \<Rightarrow> goint \<Rightarrow> panic + goint" where
  "barCurrentLength current bml totl = godiv (current * bml) totl"

text \<open>The bar: the filler cells, and before them the filled cells with the last
  character, each built only when its count is positive.\<close>

definition renderBar :: "env \<Rightarrow> Style \<Rightarrow> ProgressbarPrinter \<Rightarrow> goint \<Rightarrow> panic + string" where
  "renderBar e bs p bml =
     (case barCurrentLength (Current p) bml (Total p) of
        Inl x \<Rightarrow> Inl x
      | Inr bcl \<Rightarrow>
         (case (if 0 <s bml - bcl then Repeat (BarFiller p) (bml - bcl) else Inr []) of
            Inl x \<Rightarrow> Inl x
          | Inr barFiller \<Rightarrow>
             (if 0 <s bcl
              then (case Repeat (BarCharacter p) bcl of
                      Inl x \<Rightarrow> Inl x
                    | Inr cells \<Rightarrow> Inr (StyleSprint e bs (cells @ LastCharacter p) @ barFiller))
              else Inr barFiller)))"

text \<open>\<open>getString\<close> returns the printer as well: it replaces a nil style by
  \<open>NewStyle()\<close>. \<open>styleOrNew\<close> is the style the pointer refers to after that.\<close>

definition styleOrNew :: "env \<Rightarrow> Style option \<Rightarrow> Style" where
  "styleOrNew e st = (case st of None \<Rightarrow> NewStyle e | Some x \<Rightarrow> x)"

definition ProgressbarPrinter_getString ::
  "env \<Rightarrow> ProgressbarPrinter \<Rightarrow> ProgressbarPrinter \<times> (panic + string)" where
  "ProgressbarPrinter_getString e p =
     (if \<not> IsActive p then (p, Inr [])
      else
        let ts = styleOrNew e (TitleStyle p);
            bs = styleOrNew e (BarStyle p);
            p = p\<lparr>TitleStyle := Some ts, BarStyle := Some bs\<rparr>
        in if Total p = 0 then (p, Inr [])
           else
             let width = lineWidth e p;
                 bef = beforeSegment e ts p;
                 aft = afterSegment e p;
                 bml = barMaxLength e bef aft width
             in (p, case renderBar e bs p bml of
                      Inl x \<Rightarrow> Inl x
                    | Inr bar \<Rightarrow> Inr (bef @ bar @ aft)))"

subsection \<open>The process-wide state\<close>

text \<open>Printers and scheduled tasks are reached through pointers; \<open>outlog\<close> records what
  was sent to the writers and to the cursor, in order. The print functions
  (\<open>Fprinto\<close>, \<open>Fprintln\<close>, \<open>fClearLine\<close>) and the cursor are not part of the source file:
  the model records each call as one event and nothing of what the callee does
  with it.\<close>

datatype event = Fprinto writer string | Fprintln writer | FClearLine writer | CursorShow

record pworld =
  printers :: "addr \<Rightarrow> ProgressbarPrinter"
  tasks :: "addr \<Rightarrow> bool"
  ActiveProgressBarPrinters :: "addr list"
  outlog :: "event list"

definition updateProgress :: "env \<Rightarrow> addr \<Rightarrow> pworld \<Rightarrow> panic + pworld" where
  "updateProgress e p w =
     (case ProgressbarPrinter_getString e (printers w p) of
        (pr, Inl x) \<Rightarrow> Inl x
      | (pr, Inr s) \<Rightarrow>
          Inr (w\<lparr>printers := (printers w)(p := pr),
                 outlog := outlog w @ [Fprinto (Writer pr) s]\<rparr>))"

text \<open>The loop of \<open>Stop\<close> over the active printers: the first entry equal to \<open>p\<close> is cut
  out, and the loop ends.\<close>

fun removeBar :: "addr \<Rightarrow> addr list \<Rightarrow> addr list" where
  "removeBar p [] = []"
| "removeBar p (bar # rest) = (if bar = p then rest else bar # removeBar p rest)"

definition Stop :: "addr \<Rightarrow> pworld \<Rightarrow> (addr \<times> unit option) \<times> pworld" where
  "Stop p w =
     (let pr = printers w p;
          w = (case rerenderTask pr of
                 None \<Rightarrow> w
               | Some t \<Rightarrow> if tasks w t then w\<lparr>tasks := (tasks w)(t := False)\<rparr> else w)
      in if \<not> IsActive pr then ((p, None), w)
         else
           let w = w\<lparr>printers := (printers w)(p := pr\<lparr>IsActive := False\<rparr>)\<rparr>;
               removeWhenDone = RemoveWhenDone pr;
               writer = Writer pr;
               w = w\<lparr>outlog := outlog w @ [CursorShow]\<rparr>;
               w = (if removeWhenDone
                    then w\<lparr>outlog := outlog w @ [FClearLine writer, Fprinto writer []]\<rparr>
                    else w\<lparr>outlog := outlog w @ [Fprintln writer]\<rparr>);
               w = w\<lparr>ActiveProgressBarPrinters := removeBar p (ActiveProgressBarPrinters w)\<rparr>
           in ((p, None), w))"

text \<open>\<open>Add\<close> returns a pointer: \<open>None\<close> is nil.\<close>

definition Add :: "env \<Rightarrow> addr \<Rightarrow> goint \<Rightarrow> pworld \<Rightarrow> panic + (addr option \<times> pworld)" where
  "Add e p count w =
     (let pr = printers w p in
      if Total pr = 0 then Inr (None, w)
      else
        let currentValue = Current pr + count;
            totl = Total pr;
            w = w\<lparr>printers := (printers w)(p := pr\<lparr>Current := currentValue\<rparr>)\<rparr>
        in case updateProgress e p w of
             Inl x \<Rightarrow> Inl x
           | Inr w \<Rightarrow>
               if totl \<le>s currentValue
               then
                 (let w = w\<lparr>printers := (printers w)(p := (printers w p)\<lparr>Total := currentValue\<rparr>)\<rparr>
                  in case updateProgress e p w of
                       Inl x \<Rightarrow> Inl x
                     | Inr w \<Rightarrow> Inr (Some p, snd (Stop p w)))
               else Inr (Some p, w))"

subsection \<open>Sequences of Add calls\<close>

text \<open>\<open>AddAll p cs w\<close> calls \<open>Add\<close> on \<open>p\<close> once for each count of \<open>cs\<close> (each call with
  the terminal and the clock of its moment) and lists the state after each call.
  \<open>stops p ws\<close> counts the steps of a list of states at which \<open>p\<close> goes from active to
  inactive.\<close>

fun AddAll :: "addr \<Rightarrow> (env \<times> goint) list \<Rightarrow> pworld \<Rightarrow> panic + pworld list" where
  "AddAll p [] w = Inr []"
| "AddAll p ((e, n) # cs) w =
     (case Add e p n w of
        Inl x \<Rightarrow> Inl x
      | Inr (r, w1) \<Rightarrow>
          (case AddAll p cs w1 of
             Inl x \<Rightarrow> Inl x
           | Inr ws \<Rightarrow> Inr (w1 # ws)))"

fun stops :: "addr \<Rightarrow> pworld list \<Rightarrow> nat" where
  "stops p (a # b # ws) =
     (if IsActive (printers a p) \<and> \<not> IsActive (printers b p) then 1 else 0) + stops p (b # ws)"
| "stops p ws = 0"

section \<open>Concrete states\<close>

text \<open>A multiplexer with a single buffer holding \<open>s\<close>; and, for it, a sequence of two
  more registrations and of writes in which the buffers are written to in another
  order than they were registered.\<close>

definition oneBuffer :: "string \<Rightarrow> mworld" where
  "oneBuffer s = \<lparr>store = (\<lambda>a. \<lparr>buf = s\<rparr>), nextAddr = 1,
                  mp = \<lparr>mpIsActive = True, buffers = [0]\<rparr>\<rparr>"

definition threeWriters :: "mop list" where
  "threeWriters =
     [OpNewWriter, OpWrite 1 ''b1'', OpNewWriter, OpWrite 2 ''c'',
      OpWrite 0 (CR # ''a2''), OpWrite 1 (CR # ''b2'')]"

text \<open>A terminal \<open>tw\<close> columns wide with no styling, and a started printer with a total
  of 10 that shows its title only.\<close>

definition plainEnv :: "goint \<Rightarrow> env" where
  "plainEnv tw =
     \<lparr>GetTerminalWidth = tw, NewStyle = [],
      StyleSprint = (\<lambda>st s. s), Gray = (\<lambda>s. s), LightWhite = (\<lambda>s. s),
      SprintfPadded = (\<lambda>w x. ''0''), SprintInt = (\<lambda>x. ''0''), Log10Trunc = (\<lambda>x. 0),
      PercentageLabel = (\<lambda>t c. ''  0%''), Since = (\<lambda>t. 0),
      DurationRound = (\<lambda>d m. d), DurationString = (\<lambda>d. ''0s''),
      RemoveColorFromString = (\<lambda>s. s)\<rparr>"

definition bar10 :: ProgressbarPrinter where
  "bar10 =
     \<lparr>Title = ''Downloading.'', Total = 10, Current = 0,
      BarCharacter = ''#'', LastCharacter = ''>'', ElapsedTimeRoundingFactor = 1000000000,
      BarFiller = ''-'', MaxWidth = 80,
      ShowElapsedTime = False, ShowCount = False, ShowTitle = True, ShowPercentage = False,
      RemoveWhenDone = False, TitleStyle = None, BarStyle = None, IsActive = True,
      startedAt = 0, rerenderTask = None, Writer = 0\<rparr>"

text \<open>The same printer with a total of 1 and a bar character of three bytes.\<close>

definition bar1 :: ProgressbarPrinter where
  "bar1 = bar10\<lparr>Total := 1, BarCharacter := ''###''\<rparr>"

definition barWorld :: "ProgressbarPrinter \<Rightarrow> pworld" where
  "barWorld pr = \<lparr>printers = (\<lambda>a. pr), tasks = (\<lambda>t. False),
                  ActiveProgressBarPrinters = [0], outlog = []\<rparr>"

text \<open>What a call of \<open>Add\<close> returned and what had been sent to the writers when it
  returned; nothing when it panicked.\<close>

definition returned :: "panic + (addr option \<times> pworld) \<Rightarrow> addr option option" where
  "returned r = (case r of Inl x \<Rightarrow> None | Inr (q, w) \<Rightarrow> Some q)"

definition outlogOf :: "panic + (addr option \<times> pworld) \<Rightarrow> event list" where
  "outlogOf r = (case r of Inl x \<Rightarrow> [] | Inr (q, w) \<Rightarrow> outlog w)"

section \<open>The merge of the MultiPrinter\<close>

lemma Split_aux_nonempty: "Split_aux sep k cur s \<noteq> []"
  by (induction sep k cur s rule: Split_aux.induct) auto

lemma Split_nonempty: "Split s sep \<noteq> []"
  by (simp add: Split_def Split_aux_nonempty)

lemma last_nonempty_snoc:
  "last_nonempty (ps @ [p]) = (if p \<noteq> [] then p else last_nonempty ps)"
  by (simp add: last_nonempty_def)

lemma walk_eq:
  "k \<le> length parts \<Longrightarrow>
   walk parts k s = (if s \<noteq> [] then s else last_nonempty (take k parts))"
proof (induction k arbitrary: s)
  case 0
  then show ?case by (simp add: last_nonempty_def)
next
  case (Suc k)
  then have "take (Suc k) parts = take k parts @ [parts ! k]"
    by (simp add: take_Suc_conv_app_nth)
  with Suc show ?case by (simp add: last_nonempty_snoc)
qed

lemma walk_last:
  assumes "parts \<noteq> []"
  shows "walk parts (length parts) (parts ! (length parts - Suc 0)) = last_nonempty parts"
proof -
  from assms obtain ps p where e: "parts = ps @ [p]"
    by (metis rev_exhaust)
  show ?thesis using walk_eq [of "length parts" parts "parts ! (length parts - Suc 0)"]
    by (simp add: e last_nonempty_snoc)
qed

lemma body_visibleLine:
  "MultiPrinter_getString_body s = Inr (visibleLine s @ [NL])"
  by (simp add: MultiPrinter_getString_body_def visibleLine_def Let_def Split_nonempty walk_last)

lemma loop_lines:
  "MultiPrinter_getString_loop st bs acc =
     Inr (acc @ concat (map (\<lambda>b. visibleLine (String (st b)) @ [NL]) bs))"
  by (induction bs arbitrary: acc) (simp_all add: body_visibleLine)

lemma getString_lines:
  "MultiPrinter_getString w =
     Inr (concat (map (\<lambda>b. visibleLine (String (store w b)) @ [NL]) (buffers (mp w))))"
  by (simp add: MultiPrinter_getString_def loop_lines)

lemma getString_default:
  "MultiPrinter_getString \<lparr>store = st, nextAddr = n, mp = DefaultMultiPrinter\<rparr> = Inr []"
  by (simp add: MultiPrinter_getString_def DefaultMultiPrinter_def)

text \<open>
  \<^bold>\<open>C4.\<close> Carriage-return collapse: a multiplexer whose buffer holds \<open>A\rB\rC\<close> shows the
  line \<open>C\<close>, and one whose buffer holds \<open>A\r\r\<close> falls back to the line \<open>A\<close>. For every
  snapshot, the segment taken is the last non-empty one of the segments between the
  carriage returns (the walk backward from the last segment stops there), trimmed
  and followed by a newline.
\<close>

theorem carriage_return_collapse:
  "MultiPrinter_getString (oneBuffer (''A'' @ [CR] @ ''B'' @ [CR] @ ''C'')) = Inr (''C'' @ [NL]) \<and>
   MultiPrinter_getString (oneBuffer (''A'' @ [CR, CR])) = Inr (''A'' @ [NL]) \<and>
   MultiPrinter_getString_body s =
     Inr (Trim (last_nonempty (Split (Trim s [NL]) [CR])) [NL, CR] @ [NL])"
proof -
  have "visibleLine (''A'' @ [CR] @ ''B'' @ [CR] @ ''C'') = ''C''"
    by (simp add: visibleLine_def Trim_def Split_def last_nonempty_def NL_def CR_def)
  moreover have "visibleLine (''A'' @ [CR, CR]) = ''A''"
    by (simp add: visibleLine_def Trim_def Split_def last_nonempty_def NL_def CR_def)
  moreover have "MultiPrinter_getString_body s =
      Inr (Trim (last_nonempty (Split (Trim s [NL]) [CR])) [NL, CR] @ [NL])"
    using body_visibleLine [of s] by (simp add: visibleLine_def)
  ultimately show ?thesis
    by (simp add: getString_lines oneBuffer_def String_def)
qed

subsection \<open>Registration order\<close>

lemma run_facts:
  "run ops w = Some (w', hs) \<Longrightarrow>
     buffers (mp w') = buffers (mp w) @ hs \<and>
     (\<forall>h \<in> set hs. nextAddr w \<le> h) \<and>
     (\<forall>b. buf (store w' b) = (if b \<in> set hs then [] else buf (store w b)) @ written b ops)"
proof (induction ops w arbitrary: w' hs rule: run.induct)
  case (1 w)
  then show ?case by simp
next
  case (2 ops w)
  from "2.prems" obtain hs' where r: "run ops (fst (NewWriter w)) = Some (w', hs')"
    and hs: "hs = snd (NewWriter w) # hs'"
    by (auto split: option.splits)
  from "2.IH" [OF r] show ?case
    by (auto simp: hs NewWriter_def Let_def emptyBuffer_def)
next
  case (3 b p ops w)
  from "3.prems" have lt: "b < nextAddr w" and r: "run ops (WriteTo b p w) = Some (w', hs)"
    by (auto split: if_splits)
  from "3.IH" [OF lt r] lt show ?case
    by (auto simp: WriteTo_def Write_def)
qed

text \<open>
  \<^bold>\<open>C5.\<close> Registration-order stability: after any sequence of \<open>NewWriter\<close> calls and
  writes, \<open>p.buffers\<close> is the buffers registered before followed by the new handles in
  the order \<open>NewWriter\<close> returned them, and the merged output lists the visible line
  of each buffer in exactly that order. The line of a buffer depends on the bytes
  written to that buffer only, so the order and timing of the writes to different
  buffers do not move a line.
\<close>

theorem registration_order_stable:
  assumes "run ops w = Some (w', hs)"
    and "\<forall>b \<in> set (buffers (mp w)). b < nextAddr w"
  shows "buffers (mp w') = buffers (mp w) @ hs \<and>
    MultiPrinter_getString w' =
      Inr (concat (map (\<lambda>b. visibleLine (buf (store w b) @ written b ops) @ [NL])
                     (buffers (mp w)))
         @ concat (map (\<lambda>b. visibleLine (written b ops) @ [NL]) hs))"
proof -
  note f = run_facts [OF assms(1)]
  have old: "\<forall>b \<in> set (buffers (mp w)). b \<notin> set hs"
    using f assms(2) by fastforce
  have a: "map (\<lambda>b. visibleLine (String (store w' b)) @ [NL]) (buffers (mp w))
         = map (\<lambda>b. visibleLine (buf (store w b) @ written b ops) @ [NL]) (buffers (mp w))"
    using f old by (simp add: String_def)
  have b: "map (\<lambda>b. visibleLine (String (store w' b)) @ [NL]) hs
         = map (\<lambda>b. visibleLine (written b ops) @ [NL]) hs"
    using f by (simp add: String_def)
  have bfs: "buffers (mp w') = buffers (mp w) @ hs" using f by simp
  show ?thesis unfolding getString_lines bfs map_append concat_append a b by simp
qed

theorem registration_order_stable_witness:
  "\<exists>w'. run threeWriters (oneBuffer ''a1'') = Some (w', [1, 2]) \<and>
         buffers (mp (oneBuffer ''a1'')) = [0] \<and> 0 < nextAddr (oneBuffer ''a1'') \<and>
         buffers (mp w') = [0, 1, 2] \<and>
         MultiPrinter_getString w' = Inr (''a2'' @ [NL] @ ''b2'' @ [NL] @ ''c'' @ [NL])"
proof -
  define w' where "w' = fst (the (run threeWriters (oneBuffer ''a1'')))"
  have r: "run threeWriters (oneBuffer ''a1'') = Some (w', [1, 2])"
    unfolding w'_def
    by (simp add: threeWriters_def oneBuffer_def NewWriter_def WriteTo_def Write_def Let_def)
  have wf: "\<forall>b \<in> set (buffers (mp (oneBuffer ''a1''))). b < nextAddr (oneBuffer ''a1'')"
    by (simp add: oneBuffer_def)
  have v: "visibleLine (''a1'' @ written 0 threeWriters) = ''a2''"
    "visibleLine (written (Suc 0) threeWriters) = ''b2''"
    "visibleLine (written 2 threeWriters) = ''c''"
    by (simp_all add: threeWriters_def visibleLine_def Trim_def Split_def last_nonempty_def
        NL_def CR_def)
  have "buffers (mp w') = [0, 1, 2] \<and>
        MultiPrinter_getString w' = Inr (''a2'' @ [NL] @ ''b2'' @ [NL] @ ''c'' @ [NL])"
    using registration_order_stable [OF r wf] v by (simp add: oneBuffer_def)
  with r show ?thesis by (auto simp: oneBuffer_def)
qed

subsection \<open>Newlines of the merged output\<close>

lemma set_Trim: "set (Trim s c) \<subseteq> set s"
proof -
  have "set (Trim s c) \<subseteq> set (rev (dropWhile (\<lambda>x. x \<in> set c) (rev s)))"
    unfolding Trim_def by (meson set_dropWhileD subsetI)
  also have "\<dots> \<subseteq> set s"
    using set_dropWhileD [of _ "\<lambda>x. x \<in> set c" "rev s"] by auto
  finally show ?thesis .
qed

lemma set_Split_aux: "p \<in> set (Split_aux sep k cur s) \<Longrightarrow> set p \<subseteq> set cur \<union> set s"
  by (induction sep k cur s arbitrary: p rule: Split_aux.induct) (auto split: if_splits)

lemma set_last_nonempty: "set (last_nonempty ps) \<subseteq> \<Union> (set ` set ps)"
proof (cases "filter (\<lambda>x. x \<noteq> []) ps = []")
  case True
  then show ?thesis by (simp add: last_nonempty_def)
next
  case False
  then have "last (filter (\<lambda>x. x \<noteq> []) ps) \<in> set ps"
    using last_in_set [OF False] by auto
  with False show ?thesis by (auto simp: last_nonempty_def)
qed

lemma set_visibleLine: "set (visibleLine s) \<subseteq> set (Trim s [NL])"
proof -
  have "set (visibleLine s) \<subseteq> set (last_nonempty (Split (Trim s [NL]) [CR]))"
    unfolding visibleLine_def by (rule set_Trim)
  also have "\<dots> \<subseteq> \<Union> (set ` set (Split (Trim s [NL]) [CR]))"
    by (rule set_last_nonempty)
  also have "\<dots> \<subseteq> set (Trim s [NL])"
    using set_Split_aux [of _ "[CR]" 0 "[]" "Trim s [NL]"] by (auto simp: Split_def)
  finally show ?thesis .
qed

lemma count_concat_lines:
  "count_list (concat (map (\<lambda>b. f b @ [NL]) bs)) NL =
     length bs + sum_list (map (\<lambda>b. count_list (f b) NL) bs)"
  by (induction bs) simp_all

text \<open>
  \<^bold>\<open>C10\<close>, as stated, fails: a single buffer holding \<open>A\nB\<close> yields the output
  \<open>A\nB\n\<close>, two newline characters for one registered buffer.
\<close>

theorem newline_count_counterexample:
  "MultiPrinter_getString (oneBuffer (''A'' @ [NL] @ ''B'')) = Inr (''A'' @ [NL] @ ''B'' @ [NL]) \<and>
   count_list (''A'' @ [NL] @ ''B'' @ [NL]) NL = 2 \<and>
   length (buffers (mp (oneBuffer (''A'' @ [NL] @ ''B'')))) = 1"
proof -
  have "visibleLine (''A'' @ [NL] @ ''B'') = ''A'' @ [NL] @ ''B''"
    by (simp add: visibleLine_def Trim_def Split_def last_nonempty_def NL_def CR_def)
  then show ?thesis
    by (simp add: getString_lines oneBuffer_def String_def NL_def)
qed

text \<open>
  \<^bold>\<open>C10\<close>, amended: the output of \<open>getString\<close> is the concatenation, in registration
  order, of one newline-terminated segment per registered buffer. It ends in a
  newline whenever a buffer is registered, and it holds one newline character per
  registered buffer plus those inside the visible lines: at least as many as there
  are buffers, and exactly as many when no buffer holds a newline between other
  bytes (none is left after trimming the newlines at its ends). A buffer that was
  never written to contributes a blank line: registering a buffer appends one
  newline to the output.
\<close>

theorem newline_terminated_segments:
  "\<exists>out. MultiPrinter_getString w = Inr out \<and>
     out = concat (map (\<lambda>b. visibleLine (String (store w b)) @ [NL]) (buffers (mp w))) \<and>
     (buffers (mp w) \<noteq> [] \<longrightarrow> out \<noteq> [] \<and> last out = NL) \<and>
     count_list out NL =
       length (buffers (mp w)) +
       sum_list (map (\<lambda>b. count_list (visibleLine (String (store w b))) NL) (buffers (mp w))) \<and>
     length (buffers (mp w)) \<le> count_list out NL \<and>
     ((\<forall>b \<in> set (buffers (mp w)). NL \<notin> set (Trim (String (store w b)) [NL])) \<longrightarrow>
        count_list out NL = length (buffers (mp w))) \<and>
     MultiPrinter_getString_body [] = Inr [NL] \<and>
     ((\<forall>b \<in> set (buffers (mp w)). b < nextAddr w) \<longrightarrow>
        MultiPrinter_getString (fst (NewWriter w)) = Inr (out @ [NL]))"
proof -
  let ?f = "\<lambda>b. visibleLine (String (store w b))"
  let ?out = "concat (map (\<lambda>b. ?f b @ [NL]) (buffers (mp w)))"
  have 1: "MultiPrinter_getString w = Inr ?out" by (rule getString_lines)
  have 2: "buffers (mp w) \<noteq> [] \<longrightarrow> ?out \<noteq> [] \<and> last ?out = NL"
  proof
    assume "buffers (mp w) \<noteq> []"
    then obtain bs b where "buffers (mp w) = bs @ [b]" by (metis rev_exhaust)
    then show "?out \<noteq> [] \<and> last ?out = NL" by simp
  qed
  have 3: "count_list ?out NL = length (buffers (mp w)) +
       sum_list (map (\<lambda>b. count_list (?f b) NL) (buffers (mp w)))"
    by (rule count_concat_lines)
  have 4: "(\<forall>b \<in> set (buffers (mp w)). NL \<notin> set (Trim (String (store w b)) [NL])) \<longrightarrow>
        count_list ?out NL = length (buffers (mp w))"
  proof
    assume h: "\<forall>b \<in> set (buffers (mp w)). NL \<notin> set (Trim (String (store w b)) [NL])"
    have "\<forall>b \<in> set (buffers (mp w)). count_list (?f b) NL = 0"
      using h set_visibleLine by (fastforce simp: count_list_0_iff)
    then have "sum_list (map (\<lambda>b. count_list (?f b) NL) (buffers (mp w))) = 0"
      by simp
    with 3 show "count_list ?out NL = length (buffers (mp w))" by simp
  qed
  have e: "visibleLine [] = []"
    by (simp add: visibleLine_def Trim_def Split_def last_nonempty_def)
  have 5: "MultiPrinter_getString_body [] = Inr [NL]"
    by (simp add: body_visibleLine e)
  have 6: "(\<forall>b \<in> set (buffers (mp w)). b < nextAddr w) \<longrightarrow>
        MultiPrinter_getString (fst (NewWriter w)) = Inr (?out @ [NL])"
  proof
    assume wf: "\<forall>b \<in> set (buffers (mp w)). b < nextAddr w"
    have old: "b \<noteq> nextAddr w" if "b \<in> set (buffers (mp w))" for b
      using wf that by auto
    show "MultiPrinter_getString (fst (NewWriter w)) = Inr (?out @ [NL])"
      by (simp add: getString_lines NewWriter_def Let_def emptyBuffer_def String_def e old
          cong: map_cong)
  qed
  from 1 2 3 4 5 6 show ?thesis by simp
qed

theorem newline_terminated_segments_witness:
  "buffers (mp (oneBuffer ''A'')) = [0] \<and>
   NL \<notin> set (Trim (String (store (oneBuffer ''A'') 0)) [NL]) \<and>
   0 < nextAddr (oneBuffer ''A'') \<and>
   MultiPrinter_getString (oneBuffer ''A'') = Inr (''A'' @ [NL]) \<and>
   last (''A'' @ [NL]) = NL \<and>
   count_list (''A'' @ [NL]) NL = length (buffers (mp (oneBuffer ''A''))) \<and>
   MultiPrinter_getString (fst (NewWriter (oneBuffer ''A''))) = Inr (''A'' @ [NL] @ [NL])"
proof -
  have t: "Trim ''A'' [NL] = ''A''"
    by (simp add: Trim_def NL_def)
  have v: "visibleLine ''A'' = ''A''"
    by (simp add: visibleLine_def Trim_def Split_def last_nonempty_def NL_def CR_def)
  have n: "CHR ''A'' \<noteq> NL" "NL \<noteq> CHR ''A''"
    by (simp_all add: NL_def)
  from newline_terminated_segments [of "oneBuffer ''A''"] show ?thesis
    by (simp add: oneBuffer_def String_def t v n)
qed

section \<open>The bar of the ProgressbarPrinter\<close>

subsection \<open>Arithmetic on 64-bit integers\<close>

lemma sint_bounds: "- (2 ^ 63) \<le> sint (a :: goint) \<and> sint a < 2 ^ 63"
  using sint_ge [of a] sint_lt [of a] by simp

lemma sint_mult_exact:
  fixes a b :: goint
  assumes "- (2 ^ 63) \<le> sint a * sint b" and "sint a * sint b < 2 ^ 63"
  shows "sint (a * b) = sint a * sint b"
  using assms by (simp add: sint_word_ariths signed_take_bit_int_eq_self)

lemma sint_sub_exact:
  fixes a b :: goint
  assumes "- (2 ^ 63) \<le> sint a - sint b" and "sint a - sint b < 2 ^ 63"
  shows "sint (a - b) = sint a - sint b"
  using assms by (simp add: sint_word_ariths signed_take_bit_int_eq_self)

lemma sint_of_int_exact:
  assumes "- (2 ^ 63) \<le> k" and "k < 2 ^ 63"
  shows "sint (word_of_int k :: goint) = k"
  using assms by (simp add: sint_sbintrunc' signed_take_bit_int_eq_self)

lemma div_le_of_le:
  fixes c t m :: int
  assumes "0 \<le> c" "c \<le> t" "0 < t" "0 \<le> m"
  shows "0 \<le> (c * m) div t \<and> (c * m) div t \<le> m"
proof -
  have "c * m \<le> t * m" using assms by (simp add: mult_right_mono)
  then have "(c * m) div t \<le> (t * m) div t" using assms(3) by (rule zdiv_mono1)
  moreover have "(t * m) div t = m" using assms(3) by simp
  moreover have "0 \<le> (c * m) div t" using assms by (simp add: pos_imp_zdiv_nonneg_iff)
  ultimately show ?thesis by simp
qed

lemma sdiv_nonpos:
  fixes c t m :: int
  assumes "0 \<le> c" "c \<le> t" "0 < t" "m \<le> 0"
  shows "m \<le> (c * m) sdiv t \<and> (c * m) sdiv t \<le> 0"
proof -
  have q: "0 \<le> (c * (- m)) div t \<and> (c * (- m)) div t \<le> - m"
    using assms by (intro div_le_of_le) simp_all
  have le: "c * m \<le> 0" using assms by (simp add: mult_nonneg_nonpos)
  have "(c * m) sdiv t = - ((c * (- m)) div t)"
  proof (cases "c * m = 0")
    case True
    then have "c * (- m) = 0" by simp
    with True show ?thesis by (simp only: sdiv_int_0_div div_0 minus_zero)
  next
    case False
    with le have "c * m < 0" by linarith
    with assms(3) show ?thesis by (simp add: signed_divide_int_def sgn_if)
  qed
  with q show ?thesis by simp
qed

subsection \<open>The number of filled cells\<close>

text \<open>
  \<^bold>\<open>C6\<close>, as stated, fails where the product overflows: with \<open>Current = Total = 2^61\<close> and
  a bar area of 4 cells the product \<open>Current * barMaxLength\<close> wraps around to \<open>-2^63\<close>, and
  the number of filled cells is \<open>-4\<close>.
\<close>

theorem bar_width_overflow_counterexample:
  "0 \<le>s (2 ^ 61 :: goint) \<and> (2 ^ 61 :: goint) \<le>s 2 ^ 61 \<and> 0 <s (2 ^ 61 :: goint) \<and>
   0 <s (4 :: goint) \<and>
   barCurrentLength (2 ^ 61) 4 (2 ^ 61) = Inr (- 4) \<and> (- 4 :: goint) <s 0"
  by (simp add: barCurrentLength_def godiv_def word_sle_eq word_sless_alt signed_divide_int_def)

text \<open>
  \<^bold>\<open>C6\<close>, amended: for every \<open>Current\<close> in \<open>[0, Total]\<close> with \<open>Total > 0\<close> and every positive
  bar area width whose product with \<open>Current\<close> does not overflow the 64-bit integer, the
  number of filled cells is computed without a panic, is the floor of
  \<open>Current * barMaxLength / Total\<close>, is not negative and does not exceed the bar area width.
\<close>

theorem bar_width_bound:
  assumes "0 \<le>s current" "current \<le>s totl" "0 <s totl" "0 <s bml"
    and "sint current * sint bml < 2 ^ 63"
  shows "\<exists>r. barCurrentLength current bml totl = Inr r \<and> 0 \<le>s r \<and> r \<le>s bml \<and>
             sint r = (sint current * sint bml) div sint totl"
proof -
  let ?c = "sint current" and ?t = "sint totl" and ?m = "sint bml"
  from assms have c: "0 \<le> ?c" "?c \<le> ?t" "0 < ?t" "0 < ?m"
    by (simp_all add: word_sle_eq word_sless_alt)
  have nz: "totl \<noteq> 0" using c(3) by auto
  have nn: "0 \<le> ?c * ?m" using c by simp
  then have prod: "sint (current * bml) = ?c * ?m"
    using assms(5) by (intro sint_mult_exact) simp_all
  have q: "0 \<le> (?c * ?m) div ?t \<and> (?c * ?m) div ?t \<le> ?m"
    using c by (intro div_le_of_le) simp_all
  have sd: "(?c * ?m) sdiv ?t = (?c * ?m) div ?t"
    using c nn by (simp add: signed_divide_int_def sgn_if)
  let ?r = "word_of_int ((?c * ?m) div ?t) :: goint"
  have r: "sint ?r = (?c * ?m) div ?t"
    using q sint_bounds [of bml] by (intro sint_of_int_exact) linarith+
  have "barCurrentLength current bml totl = Inr ?r"
    using nz by (simp add: barCurrentLength_def godiv_def prod sd)
  moreover have "0 \<le>s ?r \<and> ?r \<le>s bml"
    using q r by (simp add: word_sle_eq)
  ultimately show ?thesis using r by blast
qed

theorem bar_width_bound_witness:
  "0 \<le>s (5 :: goint) \<and> (5 :: goint) \<le>s 10 \<and> 0 <s (10 :: goint) \<and> 0 <s (77 :: goint) \<and>
   sint (5 :: goint) * sint (77 :: goint) < 2 ^ 63 \<and>
   barCurrentLength 5 77 10 = Inr 38 \<and> 0 \<le>s (38 :: goint) \<and> (38 :: goint) \<le>s 77"
proof -
  have h: "0 \<le>s (5 :: goint)" "(5 :: goint) \<le>s 10" "0 <s (10 :: goint)" "0 <s (77 :: goint)"
    "sint (5 :: goint) * sint (77 :: goint) < 2 ^ 63"
    by (simp_all add: word_sle_eq word_sless_alt)
  from bar_width_bound [OF h] obtain r where
    r: "barCurrentLength 5 77 10 = Inr r" "0 \<le>s r" "r \<le>s 77"
    by blast
  have "barCurrentLength 5 77 10 = Inr 38"
    by (simp add: barCurrentLength_def godiv_def signed_divide_int_def)
  with r h show ?thesis by simp
qed

subsection \<open>A bar area without cells\<close>

lemma not_neg_of_pos: "0 <s (c :: goint) \<Longrightarrow> \<not> c <s 0"
  by (simp add: word_sless_alt)

lemma Repeat_pos: "0 <s c \<Longrightarrow> Repeat s c \<noteq> Inl NegativeRepeatCount"
  by (simp add: Repeat_def not_neg_of_pos)

lemma renderBar_no_negative_repeat: "renderBar e bs p bml \<noteq> Inl NegativeRepeatCount"
  by (auto simp: renderBar_def barCurrentLength_def godiv_def Repeat_pos
      split: sum.splits if_splits)

lemma getString_no_negative_repeat:
  "snd (ProgressbarPrinter_getString e p) \<noteq> Inl NegativeRepeatCount"
  using renderBar_no_negative_repeat
  by (auto simp: ProgressbarPrinter_getString_def Let_def split: sum.splits)

lemma renderBar_empty:
  assumes "Total p \<noteq> 0" "0 \<le>s Current p" "Current p \<le>s Total p" "bml \<le>s 0"
    and "- (2 ^ 63) \<le> sint (Current p) * sint bml"
  shows "renderBar e bs p bml = Inr []"
proof -
  let ?c = "sint (Current p)" and ?t = "sint (Total p)" and ?m = "sint bml"
  from assms have c: "0 \<le> ?c" "?c \<le> ?t" "?m \<le> 0"
    by (simp_all add: word_sle_eq)
  have "?t \<noteq> 0" using assms(1) by (simp add: signed_eq_0_iff)
  with c have t: "0 < ?t" by simp
  have "?c * ?m \<le> 0" using c by (simp add: mult_nonneg_nonpos)
  then have prod: "sint (Current p * bml) = ?c * ?m"
    using assms(5) by (intro sint_mult_exact) simp_all
  let ?q = "(?c * ?m) sdiv ?t"
  have q: "?m \<le> ?q \<and> ?q \<le> 0" using c t by (intro sdiv_nonpos) simp_all
  let ?bcl = "word_of_int ?q :: goint"
  have bcl: "sint ?bcl = ?q"
    using q sint_bounds [of bml] by (intro sint_of_int_exact) linarith+
  have "sint (bml - ?bcl) = ?m - sint ?bcl"
    using q sint_bounds [of bml] by (intro sint_sub_exact) (simp_all only: bcl, linarith+)
  then have d: "sint (bml - ?bcl) = ?m - ?q"
    by (simp only: bcl)
  have g: "barCurrentLength (Current p) bml (Total p) = Inr ?bcl"
    using assms(1) by (simp add: barCurrentLength_def godiv_def prod)
  have n1: "\<not> 0 <s bml - ?bcl" using d q by (simp add: word_sless_alt)
  have n2: "\<not> 0 <s ?bcl" using bcl q by (simp add: word_sless_alt)
  show ?thesis by (simp add: renderBar_def g n1 n2)
qed

lemma segments_styles:
  "beforeSegment e ts (p\<lparr>TitleStyle := a, BarStyle := b\<rparr>) = beforeSegment e ts p"
  "afterSegment e (p\<lparr>TitleStyle := a, BarStyle := b\<rparr>) = afterSegment e p"
  "lineWidth e (p\<lparr>TitleStyle := a, BarStyle := b\<rparr>) = lineWidth e p"
  by (simp_all add: beforeSegment_def afterSegment_def lineWidth_def parseElapsedTime_def
      GetElapsedTime_def)

lemma replicate_two: "replicate 2 x = [x, x]"
  by (simp add: numeral_2_eq_2)

text \<open>
  \<^bold>\<open>C7\<close>, as stated, fails when \<open>Current\<close> is above \<open>Total\<close>, which is the state in which
  \<open>Add\<close> renders before it raises \<open>Total\<close>: on a terminal 5 columns wide the printer
  with the title \<open>Downloading.\<close>, \<open>Total = 10\<close> and \<open>Current = 12\<close> has a bar area of
  \<open>-10\<close> cells, and \<open>getString\<close> renders two filler cells. \<open>Add(4)\<close> at \<open>Current = 8\<close>
  sends exactly this line to the writer.
\<close>

theorem nonpositive_bar_area_counterexample:
  "IsActive (bar10\<lparr>Current := 12\<rparr>) \<and>
   barMaxLength (plainEnv 5)
     (beforeSegment (plainEnv 5) (styleOrNew (plainEnv 5) (TitleStyle (bar10\<lparr>Current := 12\<rparr>)))
        (bar10\<lparr>Current := 12\<rparr>))
     (afterSegment (plainEnv 5) (bar10\<lparr>Current := 12\<rparr>))
     (lineWidth (plainEnv 5) (bar10\<lparr>Current := 12\<rparr>)) = - 10 \<and>
   (- 10 :: goint) \<le>s 0 \<and>
   snd (ProgressbarPrinter_getString (plainEnv 5) (bar10\<lparr>Current := 12\<rparr>)) =
     Inr (''Downloading. '' @ ''--'' @ '' '') \<and>
   outlogOf (Add (plainEnv 5) 0 4 (barWorld (bar10\<lparr>Current := 8\<rparr>))) =
     [Fprinto 0 (''Downloading. '' @ ''--'' @ '' ''), Fprinto 0 (''Downloading. '' @ '' ''),
      CursorShow, Fprintln 0]"
  by (simp add: bar10_def plainEnv_def barWorld_def outlogOf_def Add_def updateProgress_def
      Stop_def ProgressbarPrinter_getString_def Let_def styleOrNew_def beforeSegment_def
      afterSegment_def lineWidth_def barMaxLength_def renderBar_def barCurrentLength_def
      godiv_def Repeat_def word_sle_eq word_sless_alt signed_divide_int_def replicate_two)

text \<open>The bar area is not empty either when the product overflows (\<open>2^62 * -3\<close> wraps
  around to \<open>2^62\<close>) or when \<open>Current\<close> is negative: a filled cell and the last
  character are rendered.\<close>

lemma nonpositive_bar_area_other_inputs:
  "renderBar (plainEnv 5) [] (bar10\<lparr>Total := 2 ^ 62, Current := 2 ^ 62\<rparr>) (- 3) = Inr ''#>'' \<and>
   renderBar (plainEnv 5) [] (bar10\<lparr>Current := - 5\<rparr>) (- 10) = Inr ''#####>''"
proof -
  have rep: "replicate 5 x = [x, x, x, x, x]" for x :: string
    by (simp add: eval_nat_numeral)
  show ?thesis
    by (simp add: bar10_def plainEnv_def renderBar_def barCurrentLength_def godiv_def Repeat_def
        word_sless_alt signed_divide_int_def rep)
qed

text \<open>
  \<^bold>\<open>C7\<close>, amended: when the bar area width is zero or negative, \<open>Current\<close> is in
  \<open>[0, Total]\<close> and its product with the bar area width does not overflow, \<open>getString\<close>
  renders no filled cell and no filler cell and returns the before and after segments
  alone. In every state, the repeat operations that build the bar are never invoked
  with a negative count.
\<close>

theorem nonpositive_bar_area:
  assumes "IsActive p" and "Total p \<noteq> 0"
    and "0 \<le>s Current p" and "Current p \<le>s Total p"
    and "bml = barMaxLength e (beforeSegment e (styleOrNew e (TitleStyle p)) p)
                 (afterSegment e p) (lineWidth e p)"
    and "bml \<le>s 0"
    and "- (2 ^ 63) \<le> sint (Current p) * sint bml"
  shows "renderBar e bs p bml = Inr [] \<and>
     snd (ProgressbarPrinter_getString e p) =
       Inr (beforeSegment e (styleOrNew e (TitleStyle p)) p @ afterSegment e p) \<and>
     renderBar e' bs' q m \<noteq> Inl NegativeRepeatCount \<and>
     snd (ProgressbarPrinter_getString e' q) \<noteq> Inl NegativeRepeatCount"
proof -
  let ?p' = "p\<lparr>TitleStyle := Some (styleOrNew e (TitleStyle p)),
               BarStyle := Some (styleOrNew e (BarStyle p))\<rparr>"
  have r: "renderBar e bs p bml = Inr []" for bs
    using assms by (intro renderBar_empty) simp_all
  have r': "renderBar e (styleOrNew e (BarStyle p)) ?p' bml = Inr []"
    using assms by (intro renderBar_empty) simp_all
  have "snd (ProgressbarPrinter_getString e p) =
       Inr (beforeSegment e (styleOrNew e (TitleStyle p)) p @ afterSegment e p)"
    using assms(1,2) r'
    by (simp add: ProgressbarPrinter_getString_def Let_def segments_styles flip: assms(5))
  with r renderBar_no_negative_repeat getString_no_negative_repeat show ?thesis by simp
qed

theorem nonpositive_bar_area_witness:
  "IsActive (bar10\<lparr>Current := 5\<rparr>) \<and> Total (bar10\<lparr>Current := 5\<rparr>) \<noteq> 0 \<and>
   0 \<le>s Current (bar10\<lparr>Current := 5\<rparr>) \<and>
   Current (bar10\<lparr>Current := 5\<rparr>) \<le>s Total (bar10\<lparr>Current := 5\<rparr>) \<and>
   barMaxLength (plainEnv 5)
     (beforeSegment (plainEnv 5) (styleOrNew (plainEnv 5) (TitleStyle (bar10\<lparr>Current := 5\<rparr>)))
        (bar10\<lparr>Current := 5\<rparr>))
     (afterSegment (plainEnv 5) (bar10\<lparr>Current := 5\<rparr>))
     (lineWidth (plainEnv 5) (bar10\<lparr>Current := 5\<rparr>)) = - 10 \<and>
   (- 10 :: goint) \<le>s 0 \<and>
   - (2 ^ 63) \<le> sint (Current (bar10\<lparr>Current := 5\<rparr>)) * sint (- 10 :: goint) \<and>
   renderBar (plainEnv 5) [] (bar10\<lparr>Current := 5\<rparr>) (- 10) = Inr [] \<and>
   snd (ProgressbarPrinter_getString (plainEnv 5) (bar10\<lparr>Current := 5\<rparr>)) =
     Inr (''Downloading. '' @ '' '')"
proof -
  let ?p = "bar10\<lparr>Current := 5\<rparr>"
  let ?e = "plainEnv 5"
  have h: "IsActive ?p" "Total ?p \<noteq> 0" "0 \<le>s Current ?p" "Current ?p \<le>s Total ?p"
    by (simp_all add: bar10_def word_sle_eq)
  have b: "- 10 = barMaxLength ?e (beforeSegment ?e (styleOrNew ?e (TitleStyle ?p)) ?p)
             (afterSegment ?e ?p) (lineWidth ?e ?p)"
    by (simp add: bar10_def plainEnv_def styleOrNew_def beforeSegment_def afterSegment_def
        lineWidth_def barMaxLength_def word_sle_eq)
  have n: "(- 10 :: goint) \<le>s 0" "- (2 ^ 63) \<le> sint (Current ?p) * sint (- 10 :: goint)"
    by (simp_all add: bar10_def word_sle_eq)
  have s: "beforeSegment ?e (styleOrNew ?e (TitleStyle ?p)) ?p @ afterSegment ?e ?p
           = ''Downloading. '' @ '' ''"
    by (simp add: bar10_def plainEnv_def styleOrNew_def beforeSegment_def afterSegment_def)
  from nonpositive_bar_area [OF h b n, of "[]"] h b [symmetric] n s show ?thesis
    by simp
qed

section \<open>Add and Stop\<close>

lemma getString_keeps:
  "Total (fst (ProgressbarPrinter_getString e p)) = Total p \<and>
   Current (fst (ProgressbarPrinter_getString e p)) = Current p \<and>
   IsActive (fst (ProgressbarPrinter_getString e p)) = IsActive p"
  by (simp add: ProgressbarPrinter_getString_def Let_def)

lemma updateProgress_keeps:
  assumes "updateProgress e p w = Inr w'"
  shows "Total (printers w' p) = Total (printers w p) \<and>
         Current (printers w' p) = Current (printers w p) \<and>
         IsActive (printers w' p) = IsActive (printers w p)"
proof -
  obtain pr r where g: "ProgressbarPrinter_getString e (printers w p) = (pr, r)"
    by (cases "ProgressbarPrinter_getString e (printers w p)")
  with assms have "printers w' p = pr"
    by (auto simp: updateProgress_def split: sum.splits)
  moreover have "pr = fst (ProgressbarPrinter_getString e (printers w p))"
    using g by simp
  ultimately show ?thesis using getString_keeps [of e "printers w p"] by simp
qed

lemma Stop_keeps:
  "Total (printers (snd (Stop p w)) p) = Total (printers w p) \<and>
   Current (printers (snd (Stop p w)) p) = Current (printers w p) \<and>
   \<not> IsActive (printers (snd (Stop p w)) p)"
  by (simp add: Stop_def Let_def split: option.splits)

lemma Add_step:
  assumes "Total (printers w p) \<noteq> 0" and "Add e p n w = Inr (r, w')"
  shows "r = Some p \<and>
     Current (printers w' p) = Current (printers w p) + n \<and>
     (if Total (printers w p) \<le>s Current (printers w p) + n
      then Total (printers w' p) = Current (printers w p) + n \<and> \<not> IsActive (printers w' p)
      else Total (printers w' p) = Total (printers w p) \<and>
           IsActive (printers w' p) = IsActive (printers w p))"
proof -
  let ?pr = "printers w p"
  let ?cv = "Current ?pr + n"
  let ?w1 = "w\<lparr>printers := (printers w)(p := ?pr\<lparr>Current := ?cv\<rparr>)\<rparr>"
  from assms obtain w2 where u1: "updateProgress e p ?w1 = Inr w2"
    by (auto simp: Add_def Let_def split: sum.splits)
  note k1 = updateProgress_keeps [OF u1]
  show ?thesis
  proof (cases "Total ?pr \<le>s ?cv")
    case False
    with assms u1 have "r = Some p" "w' = w2"
      by (auto simp: Add_def Let_def)
    with k1 False show ?thesis by simp
  next
    case True
    let ?w3 = "w2\<lparr>printers := (printers w2)(p := (printers w2 p)\<lparr>Total := ?cv\<rparr>)\<rparr>"
    from assms u1 True obtain w4 where u2: "updateProgress e p ?w3 = Inr w4"
      and res: "r = Some p" "w' = snd (Stop p w4)"
      by (auto simp: Add_def Let_def split: sum.splits)
    note k2 = updateProgress_keeps [OF u2]
    from k1 k2 res True Stop_keeps [of p w4] show ?thesis by simp
  qed
qed

text \<open>The only panic of \<open>getString\<close> in the model, and so of \<open>Add\<close>, is the length
  overflow of \<open>strings.Repeat\<close>, which needs a bar of \<open>2^63\<close> bytes or more.\<close>

lemma renderBar_panic:
  assumes "Total p \<noteq> 0" and "renderBar e bs p bml = Inl x"
  shows "x = RepeatOverflow"
  using assms
  by (auto simp: renderBar_def barCurrentLength_def godiv_def Repeat_def not_neg_of_pos
      split: sum.splits if_splits)

lemma getString_panic:
  "snd (ProgressbarPrinter_getString e p) = Inl x \<Longrightarrow> x = RepeatOverflow"
  by (auto simp: ProgressbarPrinter_getString_def Let_def
      split: sum.splits if_splits dest: renderBar_panic [rotated])

lemma updateProgress_panic: "updateProgress e p w = Inl x \<Longrightarrow> x = RepeatOverflow"
  using getString_panic [of e "printers w p" x]
  by (auto simp: updateProgress_def split: prod.splits sum.splits)

lemma Add_panic: "Add e p n w = Inl x \<Longrightarrow> x = RepeatOverflow"
  by (auto simp: Add_def Let_def split: if_splits sum.splits dest: updateProgress_panic)

lemma AddAll_panic: "AddAll p cs w = Inl x \<Longrightarrow> x = RepeatOverflow"
proof (induction cs arbitrary: w)
  case Nil
  then show ?case by simp
next
  case (Cons c cs)
  obtain e n where c: "c = (e, n)" by (cases c)
  from Cons.prems show ?case
    by (auto simp: c split: sum.splits dest: Add_panic Cons.IH)
qed

subsection \<open>A printer without a total\<close>

text \<open>
  \<^bold>\<open>C1.\<close> Zero-total safety: on a printer with \<open>Total = 0\<close>, \<open>Add(n)\<close> returns and leaves
  the whole state as it was (so \<open>Current\<close>, \<open>Total\<close> and \<open>IsActive\<close> of every printer are
  unchanged, and nothing is written), and \<open>getString()\<close> returns the empty string, for
  every \<open>n\<close>.
\<close>

theorem zero_total_safety:
  assumes "Total (printers w p) = 0"
  shows "(\<exists>r. Add e p n w = Inr (r, w)) \<and>
         snd (ProgressbarPrinter_getString e (printers w p)) = Inr []"
  using assms by (simp add: Add_def ProgressbarPrinter_getString_def Let_def)

theorem zero_total_safety_witness:
  "Total (printers (barWorld (bar10\<lparr>Total := 0\<rparr>)) 0) = 0 \<and>
   Add (plainEnv 80) 0 5 (barWorld (bar10\<lparr>Total := 0\<rparr>)) =
     Inr (None, barWorld (bar10\<lparr>Total := 0\<rparr>)) \<and>
   snd (ProgressbarPrinter_getString (plainEnv 80)
          (printers (barWorld (bar10\<lparr>Total := 0\<rparr>)) 0)) = Inr []"
proof -
  have h: "Total (printers (barWorld (bar10\<lparr>Total := 0\<rparr>)) 0) = 0"
    by (simp add: barWorld_def)
  have "Add (plainEnv 80) 0 5 (barWorld (bar10\<lparr>Total := 0\<rparr>)) =
     Inr (None, barWorld (bar10\<lparr>Total := 0\<rparr>))"
    using h by (simp add: Add_def)
  with zero_total_safety [OF h, of "plainEnv 80" 5] h show ?thesis by simp
qed

text \<open>
  \<^bold>\<open>C9.\<close> On a printer with \<open>Total = 0\<close>, \<open>Add\<close> returns the nil pointer; in every other
  case in which \<open>Add\<close> returns, it returns the printer itself.
\<close>

theorem Add_returns_nil_or_self:
  "(Total (printers w p) = 0 \<longrightarrow> returned (Add e p n w) = Some None) \<and>
   (Total (printers w p) \<noteq> 0 \<longrightarrow>
      (\<forall>r w'. Add e p n w = Inr (r, w') \<longrightarrow> r = Some p) \<and>
      returned (Add e p n w) \<noteq> Some None)"
proof -
  have "returned (Add e p n w) = Some None" if "Total (printers w p) = 0"
    using that by (simp add: Add_def returned_def)
  moreover have self: "r = Some p"
    if "Total (printers w p) \<noteq> 0" "Add e p n w = Inr (r, w')" for r w'
    using Add_step [OF that] by simp
  moreover have "returned (Add e p n w) \<noteq> Some None" if "Total (printers w p) \<noteq> 0"
    using self [OF that] by (auto simp: returned_def split: sum.splits)
  ultimately show ?thesis by blast
qed

theorem Add_returns_nil_or_self_witness:
  "Total (printers (barWorld (bar10\<lparr>Total := 0\<rparr>)) 0) = 0 \<and>
   returned (Add (plainEnv 30) 0 4 (barWorld (bar10\<lparr>Total := 0\<rparr>))) = Some None \<and>
   Total (printers (barWorld bar10) 0) \<noteq> 0 \<and>
   returned (Add (plainEnv 30) 0 4 (barWorld bar10)) = Some (Some 0)"
proof -
  let ?z = "barWorld (bar10\<lparr>Total := 0\<rparr>)" and ?w = "barWorld bar10"
  have h0: "Total (printers ?z 0) = 0" and h1: "Total (printers ?w 0) \<noteq> 0"
    by (simp_all add: barWorld_def bar10_def)
  have "\<not> isl (Add (plainEnv 30) 0 4 ?w)"
    by code_simp
  then obtain r w' where a: "Add (plainEnv 30) 0 4 ?w = Inr (r, w')"
    by (cases "Add (plainEnv 30) 0 4 ?w") auto
  from Add_returns_nil_or_self [of ?z 0 "plainEnv 30" 4] h0
  have 1: "returned (Add (plainEnv 30) 0 4 ?z) = Some None" by simp
  from Add_returns_nil_or_self [of ?w 0 "plainEnv 30" 4] h1 a
  have 2: "r = Some 0" by simp
  from 1 2 a h0 h1 show ?thesis by (simp add: returned_def)
qed

subsection \<open>Stop\<close>

text \<open>
  \<^bold>\<open>C3.\<close> Idempotent stop: \<open>Stop()\<close> returns the printer and no error, and a second
  \<open>Stop()\<close> right after it returns the same and leaves the whole state as the first call
  left it: \<open>IsActive\<close>, \<open>Total\<close> and \<open>Current\<close> of the printer, the list of active printers,
  the scheduled tasks and what was written.
\<close>

theorem stop_idempotent:
  "fst (Stop p w) = (p, None) \<and> Stop p (snd (Stop p w)) = ((p, None), snd (Stop p w))"
  by (simp add: Stop_def Let_def split: option.splits)

subsection \<open>Reaching the total\<close>

lemma Add_pos:
  assumes "0 <s Total (printers w p)" and "Add e p n w = Inr (r, w')"
  shows "0 <s Total (printers w' p)"
proof -
  from assms(1) have nz: "Total (printers w p) \<noteq> 0" by auto
  from Add_step [OF nz assms(2)] assms(1) show ?thesis
    by (auto simp: word_sle_eq word_sless_alt split: if_splits)
qed

lemma ex_Suc_split: "(\<exists>i<Suc n. P i) \<longleftrightarrow> P 0 \<or> (\<exists>j<n. P (Suc j))"
  by (metis less_Suc_eq_0_disj)

lemma all_Suc_split: "(\<forall>i<Suc n. P i) \<longleftrightarrow> P 0 \<and> (\<forall>j<n. P (Suc j))"
  by (metis less_Suc_eq_0_disj)

lemma AddAll_trace:
  assumes "0 <s Total (printers w p)" and "AddAll p cs w = Inr ws"
  shows "length ws = length cs \<and>
    (\<forall>i<length cs.
       Current (printers (ws ! i) p) = Current (printers ((w # ws) ! i) p) + snd (cs ! i) \<and>
       (Total (printers ((w # ws) ! i) p) \<le>s Current (printers (ws ! i) p) \<longrightarrow>
          Total (printers (ws ! i) p) = Current (printers (ws ! i) p) \<and>
          \<not> IsActive (printers (ws ! i) p))) \<and>
    stops p (w # ws) =
      (if IsActive (printers w p) \<and>
          (\<exists>i<length cs. Total (printers ((w # ws) ! i) p) \<le>s Current (printers (ws ! i) p))
       then 1 else 0)"
  using assms
proof (induction cs arbitrary: w ws)
  case Nil
  then show ?case by simp
next
  case (Cons c cs)
  obtain e n where c: "c = (e, n)" by (cases c)
  from Cons.prems(2) obtain r w1 ws' where
    a: "Add e p n w = Inr (r, w1)" and rest: "AddAll p cs w1 = Inr ws'" and ws: "ws = w1 # ws'"
    by (auto simp: c split: sum.splits)
  from Cons.prems(1) have nz: "Total (printers w p) \<noteq> 0" by auto
  note st = Add_step [OF nz a]
  note ih = Cons.IH [OF Add_pos [OF Cons.prems(1) a] rest]
  show ?case
  proof (cases "Total (printers w p) \<le>s Current (printers w p) + n")
    case True
    with st have s1: "Current (printers w1 p) = Current (printers w p) + n"
      "Total (printers w1 p) = Current (printers w p) + n" "\<not> IsActive (printers w1 p)"
      by simp_all
    from ih s1 True show ?thesis
      by (simp add: ws c all_Suc_split ex_Suc_split)
  next
    case False
    with st have s1: "Current (printers w1 p) = Current (printers w p) + n"
      "Total (printers w1 p) = Total (printers w p)"
      "IsActive (printers w1 p) = IsActive (printers w p)"
      by simp_all
    from ih s1 False show ?thesis
      by (simp add: ws c all_Suc_split ex_Suc_split)
  qed
qed

text \<open>
  \<^bold>\<open>C2\<close>, as stated, fails where the call does not return: on a terminal 30 columns wide
  the active printer with \<open>Total = 1\<close>, \<open>Current = 0\<close> and the bar character \<open>###\<close> receives
  \<open>Add(210000000000000000)\<close>. The resulting \<open>Current\<close> is above \<open>Total\<close>, the bar area has 15
  cells and the number of filled cells is \<open>3150000000000000000\<close>, so the first render
  asks \<open>strings.Repeat\<close> for more than \<open>2^63\<close> bytes and \<open>Add\<close> panics: at that moment
  \<open>Total\<close> is still 1 and \<open>IsActive\<close> is still true, and \<open>Add\<close> never comes to raise
  \<open>Total\<close> or to stop the printer.
\<close>

theorem monotonic_clamp_counterexample:
  "IsActive (printers (barWorld bar1) 0) \<and>
   0 <s Total (printers (barWorld bar1) 0) \<and>
   Total (printers (barWorld bar1) 0) \<le>s
     Current (printers (barWorld bar1) 0) + 210000000000000000 \<and>
   Add (plainEnv 30) 0 210000000000000000 (barWorld bar1) = Inl RepeatOverflow \<and>
   AddAll 0 [(plainEnv 30, 210000000000000000)] (barWorld bar1) = Inl RepeatOverflow \<and>
   snd (ProgressbarPrinter_getString (plainEnv 30) (bar1\<lparr>Current := 210000000000000000\<rparr>)) =
     Inl RepeatOverflow \<and>
   Total (bar1\<lparr>Current := 210000000000000000\<rparr>) = 1 \<and>
   IsActive (bar1\<lparr>Current := 210000000000000000\<rparr>)"
  by (simp add: bar1_def bar10_def plainEnv_def barWorld_def Add_def updateProgress_def
      ProgressbarPrinter_getString_def Let_def styleOrNew_def beforeSegment_def
      afterSegment_def lineWidth_def barMaxLength_def renderBar_def barCurrentLength_def
      godiv_def Repeat_def word_sle_eq word_sless_alt signed_divide_int_def)

text \<open>
  \<^bold>\<open>C2\<close>, amended: let an active printer with \<open>Total > 0\<close> receive a sequence of \<open>Add\<close>
  calls each of which returns (no render of the bar panics). Every call adds its
  count to \<open>Current\<close>; after every call whose resulting \<open>Current\<close> is greater than or equal
  to the \<open>Total\<close> it found, \<open>Total\<close> equals that \<open>Current\<close> and \<open>IsActive\<close> is false; and if
  there is such a call, \<open>IsActive\<close> goes from true to false exactly once over the whole
  sequence. With \<open>Total = 10\<close> and the counts 4, 4, 4 the printer is still active after
  the second call and ends with \<open>Total = 12\<close>, stopped by the third.
\<close>

theorem monotonic_clamp:
  assumes "IsActive (printers w p)" and "0 <s Total (printers w p)"
    and "AddAll p cs w = Inr ws"
  shows "length ws = length cs \<and>
    (\<forall>i<length cs.
       Current (printers (ws ! i) p) = Current (printers ((w # ws) ! i) p) + snd (cs ! i) \<and>
       (Total (printers ((w # ws) ! i) p) \<le>s Current (printers (ws ! i) p) \<longrightarrow>
          Total (printers (ws ! i) p) = Current (printers (ws ! i) p) \<and>
          \<not> IsActive (printers (ws ! i) p))) \<and>
    ((\<exists>i<length cs. Total (printers ((w # ws) ! i) p) \<le>s Current (printers (ws ! i) p)) \<longrightarrow>
       stops p (w # ws) = 1)"
  using AddAll_trace [OF assms(2,3)] assms(1) by simp

theorem monotonic_clamp_witness:
  "IsActive (printers (barWorld bar10) 0) \<and> 0 <s Total (printers (barWorld bar10) 0) \<and>
   (\<exists>ws. AddAll 0 [(plainEnv 30, 4), (plainEnv 30, 4), (plainEnv 30, 4)] (barWorld bar10) = Inr ws \<and>
      length ws = 3 \<and>
      IsActive (printers (ws ! 1) 0) \<and>
      Total (printers ((barWorld bar10 # ws) ! 2) 0) \<le>s Current (printers (ws ! 2) 0) \<and>
      Current (printers (ws ! 2) 0) = 12 \<and>
      Total (printers (ws ! 2) 0) = 12 \<and>
      \<not> IsActive (printers (ws ! 2) 0) \<and>
      stops 0 (barWorld bar10 # ws) = 1)"
proof -
  let ?cs = "[(plainEnv 30, 4), (plainEnv 30, 4), (plainEnv 30, 4 :: goint)]"
  let ?w = "barWorld bar10"
  define ws where "ws = projr (AddAll 0 ?cs ?w)"
  have "\<not> isl (AddAll 0 ?cs ?w)"
    by code_simp
  then have r: "AddAll 0 ?cs ?w = Inr ws"
    unfolding ws_def by simp
  have h: "IsActive (printers ?w 0)" "0 <s Total (printers ?w 0)"
    by (simp_all add: barWorld_def bar10_def word_sless_alt)
  have v: "IsActive (printers (ws ! 1) 0)"
    "Total (printers ((?w # ws) ! 2) 0) \<le>s Current (printers (ws ! 2) 0)"
    "Current (printers (ws ! 2) 0) = 12"
    unfolding ws_def by code_simp+
  from monotonic_clamp [OF h r] v have
    "length ws = 3 \<and> Total (printers (ws ! 2) 0) = 12 \<and> \<not> IsActive (printers (ws ! 2) 0) \<and>
     stops 0 (?w # ws) = 1"
    by auto
  with r h v show ?thesis by blast
qed

end
